theory Spec2Isabelle
  imports Main "HOL-Library.Word"
begin

unbundle bit_operations_syntax

text \<open>
  Package \<open>encryption\<close> of spv-wallet-web-backend: \<open>deriveKey\<close>, \<open>Encrypt\<close> and \<open>Decrypt\<close> of
  \<open>encryption/encrypt.go\<close>, and \<open>Hash\<close>. The functions are embedded as they are written; the
  library functions they call are not part of the repository and are modelled first, from
  the behaviour of the Go packages and the standards these implement: \<open>encoding/hex\<close>,
  \<open>strings.Split\<close>, SHA-256 (FIPS 180-4), HMAC (RFC 2104), PBKDF2 (RFC 8018), AES (FIPS 197)
  and GCM (NIST SP 800-38D), each down to the byte.
\<close>

section \<open>Go values: bytes, strings, errors, panics\<close>

text \<open>
  A Go \<open>string\<close> is an arbitrary sequence of bytes, and so is an Isabelle \<open>string\<close>
  (a list of 8-bit characters). \<open>[]byte(s)\<close> and \<open>string(b)\<close> convert between the two
  without changing a byte.
\<close>

type_synonym byte = "8 word"

definition bytes_of_string :: "string \<Rightarrow> byte list" where
  "bytes_of_string s = map (\<lambda>c. of_nat (of_char c)) s"

definition string_of_bytes :: "byte list \<Rightarrow> string" where
  "string_of_bytes b = map (\<lambda>v. char_of (unat v)) b"

text \<open>The error values of the library calls made by package \<open>encryption\<close>.\<close>

datatype error =
    InvalidByteError char
  | ErrLength
  | KeySizeError nat
  | ErrNotBlock128
  | ErrOpen
  | ErrRandom

text \<open>A call either panics or returns.\<close>

datatype 'a exec = Panic | Done 'a

section \<open>encoding/hex\<close>

definition hextable :: string where
  "hextable = ''0123456789abcdef''"

definition hex_EncodeToString :: "byte list \<Rightarrow> string" where
  "hex_EncodeToString src =
     concat (map (\<lambda>v. [hextable ! unat (drop_bit 4 v), hextable ! unat (v AND 0x0f)]) src)"

text \<open>\<open>reverseHexTable\<close>: the value of a hexadecimal digit of either case, \<open>0xff\<close> for
  every other byte.\<close>

definition reverseHexTable :: "char \<Rightarrow> byte" where
  "reverseHexTable c =
     (let n = (of_char c :: nat) in
      if 48 \<le> n \<and> n \<le> 57 then of_nat (n - 48)
      else if 97 \<le> n \<and> n \<le> 102 then of_nat (n - 97 + 10)
      else if 65 \<le> n \<and> n \<le> 70 then of_nat (n - 65 + 10)
      else 0xff)"

text \<open>\<open>hex.DecodeString\<close>: two digits make a byte; a byte that is no digit is an
  \<open>InvalidByteError\<close>, and a string of odd length whose digits are all valid is
  \<open>ErrLength\<close>.\<close>

fun hex_DecodeString :: "string \<Rightarrow> error + byte list" where
  "hex_DecodeString [] = Inr []"
| "hex_DecodeString [p] =
     (if reverseHexTable p > 0x0f then Inl (InvalidByteError p) else Inl ErrLength)"
| "hex_DecodeString (p # q # src) =
     (let a = reverseHexTable p; b = reverseHexTable q in
      if a > 0x0f then Inl (InvalidByteError p)
      else if b > 0x0f then Inl (InvalidByteError q)
      else (case hex_DecodeString src of
              Inl e \<Rightarrow> Inl e
            | Inr dst \<Rightarrow> Inr ((push_bit 4 a OR b) # dst)))"

section \<open>strings.Split\<close>

text \<open>\<open>strings.Split(s, sep)\<close> for a separator of one byte: the loop of \<open>genSplit\<close>
  cuts \<open>s\<close> at the first separator (\<open>Index\<close>) until none is left, and the rest of \<open>s\<close>
  is the last piece.\<close>

function strings_Split :: "string \<Rightarrow> char \<Rightarrow> string list" where
  "strings_Split s sep =
     (if sep \<in> set s
      then takeWhile (\<lambda>c. c \<noteq> sep) s # strings_Split (tl (dropWhile (\<lambda>c. c \<noteq> sep) s)) sep
      else [s])"
  by pat_completeness auto
termination
proof (relation "measure (\<lambda>(s, sep). length s)")
  show "wf (measure (\<lambda>(s, sep). length s))" by simp
next
  fix s :: string and sep :: char
  assume "sep \<in> set s"
  then have "dropWhile (\<lambda>c. c \<noteq> sep) s \<noteq> []" by simp
  then have "length (tl (dropWhile (\<lambda>c. c \<noteq> sep) s)) < length (dropWhile (\<lambda>c. c \<noteq> sep) s)"
    by simp
  also have "\<dots> \<le> length s" by (rule length_dropWhile_le)
  finally show "((tl (dropWhile (\<lambda>c. c \<noteq> sep) s), sep), (s, sep)) \<in> measure (\<lambda>(s, sep). length s)"
    by simp
qed

declare strings_Split.simps [simp del]

section \<open>crypto/sha256\<close>

type_synonym u32 = "32 word"

text \<open>Cutting a byte sequence into pieces of \<open>n\<close> bytes (the last one may be shorter).\<close>

function chunks :: "nat \<Rightarrow> 'a list \<Rightarrow> 'a list list" where
  "chunks n xs = (if n = 0 \<or> xs = [] then [] else take n xs # chunks n (drop n xs))"
  by pat_completeness auto
termination
  by (relation "measure (\<lambda>(n, xs). length xs)") auto

declare chunks.simps [simp del]

text \<open>\<open>binary.BigEndian\<close>: reading and writing 32-bit and 64-bit values.\<close>

definition be_uint32 :: "byte list \<Rightarrow> u32" where
  "be_uint32 p = foldl (\<lambda>acc v. push_bit 8 acc OR ucast v) 0 p"

definition be_bytes32 :: "u32 \<Rightarrow> byte list" where
  "be_bytes32 w = [ucast (drop_bit 24 w), ucast (drop_bit 16 w), ucast (drop_bit 8 w), ucast w]"

definition be_bytes64 :: "64 word \<Rightarrow> byte list" where
  "be_bytes64 w =
     [ucast (drop_bit 56 w), ucast (drop_bit 48 w), ucast (drop_bit 40 w), ucast (drop_bit 32 w),
      ucast (drop_bit 24 w), ucast (drop_bit 16 w), ucast (drop_bit 8 w), ucast w]"

text \<open>The table \<open>_K\<close>, eight words to a row.\<close>

definition sha256_K :: "u32 list" where
  "sha256_K = concat [
     [0x428a2f98, 0x71374491, 0xb5c0fbcf, 0xe9b5dba5, 0x3956c25b, 0x59f111f1, 0x923f82a4, 0xab1c5ed5],
     [0xd807aa98, 0x12835b01, 0x243185be, 0x550c7dc3, 0x72be5d74, 0x80deb1fe, 0x9bdc06a7, 0xc19bf174],
     [0xe49b69c1, 0xefbe4786, 0x0fc19dc6, 0x240ca1cc, 0x2de92c6f, 0x4a7484aa, 0x5cb0a9dc, 0x76f988da],
     [0x983e5152, 0xa831c66d, 0xb00327c8, 0xbf597fc7, 0xc6e00bf3, 0xd5a79147, 0x06ca6351, 0x14292967],
     [0x27b70a85, 0x2e1b2138, 0x4d2c6dfc, 0x53380d13, 0x650a7354, 0x766a0abb, 0x81c2c92e, 0x92722c85],
     [0xa2bfe8a1, 0xa81a664b, 0xc24b8b70, 0xc76c51a3, 0xd192e819, 0xd6990624, 0xf40e3585, 0x106aa070],
     [0x19a4c116, 0x1e376c08, 0x2748774c, 0x34b0bcb5, 0x391c0cb3, 0x4ed8aa4a, 0x5b9cca4f, 0x682e6ff3],
     [0x748f82ee, 0x78a5636f, 0x84c87814, 0x8cc70208, 0x90befffa, 0xa4506ceb, 0xbef9a3f7, 0xc67178f2]]"

type_synonym sha256_digest = "u32 \<times> u32 \<times> u32 \<times> u32 \<times> u32 \<times> u32 \<times> u32 \<times> u32"

definition sha256_init :: sha256_digest where
  "sha256_init =
     (0x6a09e667, 0xbb67ae85, 0x3c6ef372, 0xa54ff53a, 0x510e527f, 0x9b05688c, 0x1f83d9ab, 0x5be0cd19)"

text \<open>The message schedule of \<open>blockGeneric\<close>: \<open>w[16..63]\<close> from \<open>w[0..15]\<close>.\<close>

fun sha256_schedule :: "nat \<Rightarrow> u32 list \<Rightarrow> u32 list" where
  "sha256_schedule 0 w = w"
| "sha256_schedule (Suc n) w =
     (let i = length w;
          v1 = w ! (i - 2);
          t1 = word_rotr 17 v1 XOR word_rotr 19 v1 XOR drop_bit 10 v1;
          v2 = w ! (i - 15);
          t2 = word_rotr 7 v2 XOR word_rotr 18 v2 XOR drop_bit 3 v2
      in sha256_schedule n (w @ [t1 + w ! (i - 7) + t2 + w ! (i - 16)]))"

definition sha256_round :: "sha256_digest \<Rightarrow> u32 \<times> u32 \<Rightarrow> sha256_digest" where
  "sha256_round s kw =
     (case s of (a, b, c, d, e, f, g, h) \<Rightarrow>
      let t1 = h + (word_rotr 6 e XOR word_rotr 11 e XOR word_rotr 25 e)
                 + ((e AND f) XOR (NOT e AND g)) + fst kw + snd kw;
          t2 = (word_rotr 2 a XOR word_rotr 13 a XOR word_rotr 22 a)
                 + ((a AND b) XOR (a AND c) XOR (b AND c))
      in (t1 + t2, a, b, c, d + t1, e, f, g))"

definition sha256_block :: "sha256_digest \<Rightarrow> byte list \<Rightarrow> sha256_digest" where
  "sha256_block dig p =
     (let w = sha256_schedule 48 (map be_uint32 (chunks 4 p)) in
      case dig of (h0, h1, h2, h3, h4, h5, h6, h7) \<Rightarrow>
      case foldl sha256_round dig (zip sha256_K w) of (a, b, c, d, e, f, g, h) \<Rightarrow>
        (h0 + a, h1 + b, h2 + c, h3 + d, h4 + e, h5 + f, h6 + g, h7 + h))"

text \<open>The padding written by \<open>checkSum\<close>: \<open>0x80\<close>, zeros up to 56 modulo 64, and the
  length in bits as a 64-bit value.\<close>

definition sha256_pad :: "byte list \<Rightarrow> byte list" where
  "sha256_pad msg =
     msg @ [0x80] @ replicate ((119 - length msg mod 64) mod 64) 0
         @ be_bytes64 (of_nat (8 * length msg))"

definition sha256_Sum :: "byte list \<Rightarrow> byte list" where
  "sha256_Sum msg =
     (case foldl sha256_block sha256_init (chunks 64 (sha256_pad msg)) of
        (h0, h1, h2, h3, h4, h5, h6, h7) \<Rightarrow>
          concat (map be_bytes32 [h0, h1, h2, h3, h4, h5, h6, h7]))"

text \<open>A \<open>hash.Hash\<close> as the function from everything written to the digest, with its two
  sizes.\<close>

record hash =
  hash_Size :: nat
  hash_BlockSize :: nat
  hash_Sum :: "byte list \<Rightarrow> byte list"

definition sha256_New :: hash where
  "sha256_New = \<lparr>hash_Size = 32, hash_BlockSize = 64, hash_Sum = sha256_Sum\<rparr>"

section \<open>crypto/hmac\<close>

text \<open>\<open>hmac.New(h, key)\<close>: a key longer than the block size is hashed first; the key is
  then padded with zeros to the block size and combined with \<open>0x36\<close> and \<open>0x5c\<close>.\<close>

definition hmac_key :: "hash \<Rightarrow> byte list \<Rightarrow> byte list" where
  "hmac_key h key =
     (let blocksize = hash_BlockSize h;
          key' = (if length key > blocksize then hash_Sum h key else key)
      in key' @ replicate (blocksize - length key') 0)"

definition hmac_Sum :: "hash \<Rightarrow> byte list \<Rightarrow> byte list \<Rightarrow> byte list" where
  "hmac_Sum h key msg =
     (let ipad = map (\<lambda>v. v XOR 0x36) (hmac_key h key);
          opad = map (\<lambda>v. v XOR 0x5c) (hmac_key h key)
      in hash_Sum h (opad @ hash_Sum h (ipad @ msg)))"

section \<open>github.com/xdg-go/pbkdf2\<close>

definition xor_bytes :: "byte list \<Rightarrow> byte list \<Rightarrow> byte list" where
  "xor_bytes a b = map2 (XOR) a b"

text \<open>The inner loop of \<open>pbkdf2.Key\<close>: \<open>U_n = PRF(password, U_(n-1))\<close>, folded into \<open>T\<close>.\<close>

fun pbkdf2_loop :: "(byte list \<Rightarrow> byte list) \<Rightarrow> nat \<Rightarrow> byte list \<Rightarrow> byte list \<Rightarrow> byte list" where
  "pbkdf2_loop prf 0 U T = T"
| "pbkdf2_loop prf (Suc n) U T = (let U' = prf U in pbkdf2_loop prf n U' (xor_bytes T U'))"

definition pbkdf2_block :: "(byte list \<Rightarrow> byte list) \<Rightarrow> byte list \<Rightarrow> nat \<Rightarrow> nat \<Rightarrow> byte list" where
  "pbkdf2_block prf salt iter block =
     (let T = prf (salt @ be_bytes32 (of_nat block)) in pbkdf2_loop prf (iter - 1) T T)"

definition pbkdf2_Key :: "byte list \<Rightarrow> byte list \<Rightarrow> nat \<Rightarrow> nat \<Rightarrow> hash \<Rightarrow> byte list" where
  "pbkdf2_Key password salt iter keyLen h =
     (let prf = hmac_Sum h password;
          hashLen = hash_Size h;
          numBlocks = (keyLen + hashLen - 1) div hashLen
      in take keyLen (concat (map (pbkdf2_block prf salt iter) [1 ..< numBlocks + 1])))"

section \<open>crypto/aes\<close>

text \<open>A 16-byte array is a 128-bit value, read big-endian.\<close>

type_synonym u128 = "128 word"

definition be_uint128 :: "byte list \<Rightarrow> u128" where
  "be_uint128 p = foldl (\<lambda>acc v. push_bit 8 acc OR ucast v) 0 p"

definition be_bytes128 :: "u128 \<Rightarrow> byte list" where
  "be_bytes128 w = map (\<lambda>i. ucast (drop_bit (8 * (15 - i)) w)) [0 ..< 16]"

definition aes_sbox0 :: "byte list" where
  "aes_sbox0 =
     [
      0x63, 0x7c, 0x77, 0x7b, 0xf2, 0x6b, 0x6f, 0xc5, 0x30, 0x01, 0x67, 0x2b, 0xfe, 0xd7, 0xab, 0x76,
      0xca, 0x82, 0xc9, 0x7d, 0xfa, 0x59, 0x47, 0xf0, 0xad, 0xd4, 0xa2, 0xaf, 0x9c, 0xa4, 0x72, 0xc0,
      0xb7, 0xfd, 0x93, 0x26, 0x36, 0x3f, 0xf7, 0xcc, 0x34, 0xa5, 0xe5, 0xf1, 0x71, 0xd8, 0x31, 0x15,
      0x04, 0xc7, 0x23, 0xc3, 0x18, 0x96, 0x05, 0x9a, 0x07, 0x12, 0x80, 0xe2, 0xeb, 0x27, 0xb2, 0x75,
      0x09, 0x83, 0x2c, 0x1a, 0x1b, 0x6e, 0x5a, 0xa0, 0x52, 0x3b, 0xd6, 0xb3, 0x29, 0xe3, 0x2f, 0x84,
      0x53, 0xd1, 0x00, 0xed, 0x20, 0xfc, 0xb1, 0x5b, 0x6a, 0xcb, 0xbe, 0x39, 0x4a, 0x4c, 0x58, 0xcf,
      0xd0, 0xef, 0xaa, 0xfb, 0x43, 0x4d, 0x33, 0x85, 0x45, 0xf9, 0x02, 0x7f, 0x50, 0x3c, 0x9f, 0xa8,
      0x51, 0xa3, 0x40, 0x8f, 0x92, 0x9d, 0x38, 0xf5, 0xbc, 0xb6, 0xda, 0x21, 0x10, 0xff, 0xf3, 0xd2,
      0xcd, 0x0c, 0x13, 0xec, 0x5f, 0x97, 0x44, 0x17, 0xc4, 0xa7, 0x7e, 0x3d, 0x64, 0x5d, 0x19, 0x73,
      0x60, 0x81, 0x4f, 0xdc, 0x22, 0x2a, 0x90, 0x88, 0x46, 0xee, 0xb8, 0x14, 0xde, 0x5e, 0x0b, 0xdb,
      0xe0, 0x32, 0x3a, 0x0a, 0x49, 0x06, 0x24, 0x5c, 0xc2, 0xd3, 0xac, 0x62, 0x91, 0x95, 0xe4, 0x79,
      0xe7, 0xc8, 0x37, 0x6d, 0x8d, 0xd5, 0x4e, 0xa9, 0x6c, 0x56, 0xf4, 0xea, 0x65, 0x7a, 0xae, 0x08,
      0xba, 0x78, 0x25, 0x2e, 0x1c, 0xa6, 0xb4, 0xc6, 0xe8, 0xdd, 0x74, 0x1f, 0x4b, 0xbd, 0x8b, 0x8a,
      0x70, 0x3e, 0xb5, 0x66, 0x48, 0x03, 0xf6, 0x0e, 0x61, 0x35, 0x57, 0xb9, 0x86, 0xc1, 0x1d, 0x9e,
      0xe1, 0xf8, 0x98, 0x11, 0x69, 0xd9, 0x8e, 0x94, 0x9b, 0x1e, 0x87, 0xe9, 0xce, 0x55, 0x28, 0xdf,
      0x8c, 0xa1, 0x89, 0x0d, 0xbf, 0xe6, 0x42, 0x68, 0x41, 0x99, 0x2d, 0x0f, 0xb0, 0x54, 0xbb, 0x16]"

definition aes_powx :: "byte list" where
  "aes_powx =
     [0x01, 0x02, 0x04, 0x08, 0x10, 0x20, 0x40, 0x80, 0x1b, 0x36, 0x6c, 0xd8, 0xab, 0x4d, 0x9a, 0x2f]"

definition aes_subw :: "u32 \<Rightarrow> u32" where
  "aes_subw w = be_uint32 (map (\<lambda>v. aes_sbox0 ! unat v) (be_bytes32 w))"

definition aes_rotw :: "u32 \<Rightarrow> u32" where
  "aes_rotw w = word_rotl 8 w"

text \<open>The loop of \<open>expandKeyGo\<close> that extends the encryption key schedule by one word at
  a time.\<close>

fun aes_expand :: "nat \<Rightarrow> nat \<Rightarrow> u32 list \<Rightarrow> u32 list" where
  "aes_expand nk 0 enc = enc"
| "aes_expand nk (Suc n) enc =
     (let i = length enc;
          t0 = enc ! (i - 1);
          t = (if i mod nk = 0
               then aes_subw (aes_rotw t0) XOR push_bit 24 (ucast (aes_powx ! (i div nk - 1)))
               else if nk > 6 \<and> i mod nk = 4 then aes_subw t0
               else t0)
      in aes_expand nk n (enc @ [enc ! (i - nk) XOR t]))"

definition aes_expandKey :: "byte list \<Rightarrow> u32 list" where
  "aes_expandKey key =
     (let nk = length key div 4
      in aes_expand nk (length key + 28 - nk) (map be_uint32 (chunks 4 key)))"

text \<open>One block of the cipher, as FIPS 197 writes it (the table lookups of
  \<open>encryptBlockGo\<close> compute the same rounds). The state is the 16 bytes of the block,
  column after column.\<close>

definition aes_xtime :: "byte \<Rightarrow> byte" where
  "aes_xtime v = (if bit v 7 then push_bit 1 v XOR 0x1b else push_bit 1 v)"

definition aes_subBytes :: "byte list \<Rightarrow> byte list" where
  "aes_subBytes st = map (\<lambda>v. aes_sbox0 ! unat v) st"

definition aes_shiftRows :: "byte list \<Rightarrow> byte list" where
  "aes_shiftRows st = map (\<lambda>i. st ! ((i + 4 * (i mod 4)) mod 16)) [0 ..< 16]"

fun aes_mixColumn :: "byte list \<Rightarrow> byte list" where
  "aes_mixColumn [s0, s1, s2, s3] =
     [aes_xtime s0 XOR (aes_xtime s1 XOR s1) XOR s2 XOR s3,
      s0 XOR aes_xtime s1 XOR (aes_xtime s2 XOR s2) XOR s3,
      s0 XOR s1 XOR aes_xtime s2 XOR (aes_xtime s3 XOR s3),
      (aes_xtime s0 XOR s0) XOR s1 XOR s2 XOR aes_xtime s3]"
| "aes_mixColumn col = col"

definition aes_mixColumns :: "byte list \<Rightarrow> byte list" where
  "aes_mixColumns st = concat (map aes_mixColumn (chunks 4 st))"

definition aes_addRoundKey :: "u32 list \<Rightarrow> byte list \<Rightarrow> byte list" where
  "aes_addRoundKey rk st = xor_bytes st (concat (map be_bytes32 rk))"

definition aes_round :: "byte list \<Rightarrow> u32 list \<Rightarrow> byte list" where
  "aes_round st rk = aes_addRoundKey rk (aes_mixColumns (aes_shiftRows (aes_subBytes st)))"

definition aes_encryptBlock :: "u32 list \<Rightarrow> u128 \<Rightarrow> u128" where
  "aes_encryptBlock enc src =
     (let rks = chunks 4 enc;
          st0 = aes_addRoundKey (hd rks) (be_bytes128 src);
          st1 = foldl aes_round st0 (butlast (tl rks))
      in be_uint128 (aes_addRoundKey (last rks) (aes_shiftRows (aes_subBytes st1))))"

text \<open>A \<open>cipher.Block\<close>: its block size in bytes and its encryption of one block.\<close>

record block =
  block_BlockSize :: nat
  block_Encrypt :: "u128 \<Rightarrow> u128"

text \<open>\<open>aes.NewCipher\<close> accepts keys of 16, 24 and 32 bytes only.\<close>

definition aes_NewCipher :: "byte list \<Rightarrow> error + block" where
  "aes_NewCipher key =
     (let k = length key in
      if k = 16 \<or> k = 24 \<or> k = 32
      then Inr \<lparr>block_BlockSize = 16, block_Encrypt = aes_encryptBlock (aes_expandKey key)\<rparr>
      else Inl (KeySizeError k))"

section \<open>crypto/cipher: GCM\<close>

record gcm =
  gcm_cipher :: block
  gcm_nonceSize :: nat
  gcm_tagSize :: nat

definition gcmBlockSize :: nat where "gcmBlockSize = 16"
definition gcmTagSize :: nat where "gcmTagSize = 16"
definition gcmMinimumTagSize :: nat where "gcmMinimumTagSize = 12"
definition gcmStandardNonceSize :: nat where "gcmStandardNonceSize = 12"

definition cipher_NewGCM :: "block \<Rightarrow> error + gcm" where
  "cipher_NewGCM c =
     (if block_BlockSize c \<noteq> gcmBlockSize then Inl ErrNotBlock128
      else Inr \<lparr>gcm_cipher = c, gcm_nonceSize = gcmStandardNonceSize, gcm_tagSize = gcmTagSize\<rparr>)"

text \<open>The product in GF(2^128) of NIST SP 800-38D (the leftmost bit of a block is the
  coefficient of \<open>x^0\<close>); \<open>gcm.mul\<close> computes it with a table of multiples of the
  hash key.\<close>

definition gcm_mul_step :: "u128 \<Rightarrow> u128 \<times> u128 \<Rightarrow> nat \<Rightarrow> u128 \<times> u128" where
  "gcm_mul_step x zv i =
     (case zv of (z, v) \<Rightarrow>
        (if bit x (127 - i) then z XOR v else z,
         if bit v 0 then drop_bit 1 v XOR push_bit 120 0xe1 else drop_bit 1 v))"

definition gcm_mul :: "u128 \<Rightarrow> u128 \<Rightarrow> u128" where
  "gcm_mul x y = fst (foldl (gcm_mul_step x) (0, y) [0 ..< 128])"

text \<open>\<open>gcm.update\<close>: every block of the data, the last one padded with zeros, is added to
  \<open>y\<close>, which is then multiplied by the hash key.\<close>

definition gcm_update :: "u128 \<Rightarrow> u128 \<Rightarrow> byte list \<Rightarrow> u128" where
  "gcm_update hkey y data =
     foldl (\<lambda>y blk. gcm_mul (y XOR be_uint128 (blk @ replicate (gcmBlockSize - length blk) 0)) hkey)
           y (chunks gcmBlockSize data)"

definition gcm_auth :: "gcm \<Rightarrow> byte list \<Rightarrow> byte list \<Rightarrow> u128 \<Rightarrow> byte list" where
  "gcm_auth g ciphertext additionalData tagMask =
     (let hkey = block_Encrypt (gcm_cipher g) 0;
          y = gcm_update hkey (gcm_update hkey 0 additionalData) ciphertext;
          lens = push_bit 64 (ucast (of_nat (length additionalData) * 8 :: 64 word))
                 OR ucast (of_nat (length ciphertext) * 8 :: 64 word)
      in be_bytes128 (gcm_mul (y XOR lens) hkey XOR tagMask))"

text \<open>\<open>deriveCounter\<close> for a nonce of the standard size, and \<open>gcmInc32\<close>, which adds one
  to the last four bytes of the counter.\<close>

definition gcm_deriveCounter :: "byte list \<Rightarrow> u128" where
  "gcm_deriveCounter nonce = be_uint128 (nonce @ [0, 0, 0, 1])"

definition gcmInc32 :: "u128 \<Rightarrow> u128" where
  "gcmInc32 counter =
     (counter AND NOT 0xffffffff) OR ucast (ucast counter + 1 :: u32)"

function gcm_counterCrypt :: "gcm \<Rightarrow> byte list \<Rightarrow> u128 \<Rightarrow> byte list" where
  "gcm_counterCrypt g inp counter =
     (if inp = [] then []
      else xor_bytes (take gcmBlockSize inp) (be_bytes128 (block_Encrypt (gcm_cipher g) counter))
           @ gcm_counterCrypt g (drop gcmBlockSize inp) (gcmInc32 counter))"
  by pat_completeness auto
termination
  by (relation "measure (\<lambda>(g, inp, counter). length inp)") (auto simp: gcmBlockSize_def)

declare gcm_counterCrypt.simps [simp del]

text \<open>\<open>Seal\<close> panics on a nonce of the wrong length and on a plaintext of more than
  \<open>(2^32 - 2) * 16\<close> bytes; its result is the encrypted plaintext followed by the tag.\<close>

definition gcm_Seal :: "gcm \<Rightarrow> byte list \<Rightarrow> byte list \<Rightarrow> byte list \<Rightarrow> byte list exec" where
  "gcm_Seal g nonce plaintext data =
     (if length nonce \<noteq> gcm_nonceSize g then Panic
      else if length plaintext > (2 ^ 32 - 2) * block_BlockSize (gcm_cipher g) then Panic
      else
        let counter = gcm_deriveCounter nonce;
            tagMask = block_Encrypt (gcm_cipher g) counter;
            out = gcm_counterCrypt g plaintext (gcmInc32 counter);
            tag = gcm_auth g out data tagMask
        in Done (out @ tag))"

text \<open>\<open>Open\<close> panics on a nonce of the wrong length; a ciphertext shorter than the tag,
  too long, or whose tag is not the expected one is \<open>errOpen\<close>.\<close>

definition gcm_Open :: "gcm \<Rightarrow> byte list \<Rightarrow> byte list \<Rightarrow> byte list \<Rightarrow> (error + byte list) exec" where
  "gcm_Open g nonce ciphertext data =
     (if length nonce \<noteq> gcm_nonceSize g then Panic
      else if gcm_tagSize g < gcmMinimumTagSize then Panic
      else if length ciphertext < gcm_tagSize g then Done (Inl ErrOpen)
      else if length ciphertext > (2 ^ 32 - 2) * block_BlockSize (gcm_cipher g) + gcm_tagSize g
        then Done (Inl ErrOpen)
      else
        let tag = drop (length ciphertext - gcm_tagSize g) ciphertext;
            ciphertext' = take (length ciphertext - gcm_tagSize g) ciphertext;
            counter = gcm_deriveCounter nonce;
            tagMask = block_Encrypt (gcm_cipher g) counter;
            expectedTag = gcm_auth g ciphertext' data tagMask
        in if take (gcm_tagSize g) expectedTag \<noteq> tag then Done (Inl ErrOpen)
           else Done (Inr (gcm_counterCrypt g ciphertext' (gcmInc32 counter))))"

section \<open>crypto/rand\<close>

text \<open>The randomness of the platform is an argument of the model: \<open>None\<close> when the
  platform cannot supply any, otherwise the bytes it supplies, in order. \<open>rand.Read\<close>
  fills the whole buffer or returns an error.\<close>

type_synonym entropy = "(nat \<Rightarrow> byte) option"

definition rand_Read :: "entropy \<Rightarrow> nat \<Rightarrow> error + byte list" where
  "rand_Read rnd n = (case rnd of None \<Rightarrow> Inl ErrRandom | Some f \<Rightarrow> Inr (map f [0 ..< n]))"

section \<open>Package encryption\<close>

text \<open>\<open>deriveKey\<close> of \<open>encryption/encrypt.go\<close>.\<close>

definition deriveKey :: "string \<Rightarrow> byte list \<Rightarrow> byte list \<times> byte list" where
  "deriveKey passphrase salt =
     (pbkdf2_Key (bytes_of_string passphrase) salt 1000 32 sha256_New, salt)"

text \<open>\<open>Encrypt\<close> returns a string and an error (\<open>None\<close> is Go's \<open>nil\<close>); the salt it
  passes to \<open>deriveKey\<close> is the \<open>nil\<close> slice.\<close>

definition Encrypt :: "entropy \<Rightarrow> string \<Rightarrow> string \<Rightarrow> (string \<times> error option) exec" where
  "Encrypt rnd passphrase plaintext =
     (case deriveKey passphrase [] of (key, salt) \<Rightarrow>
       (case rand_Read rnd 12 of
          Inl err \<Rightarrow> Done ('''', Some err)
        | Inr iv \<Rightarrow>
         (case aes_NewCipher key of
            Inl err \<Rightarrow> Done ('''', Some err)
          | Inr b \<Rightarrow>
           (case cipher_NewGCM b of
              Inl err \<Rightarrow> Done ('''', Some err)
            | Inr aesgcm \<Rightarrow>
             (case gcm_Seal aesgcm iv (bytes_of_string plaintext) [] of
                Panic \<Rightarrow> Panic
              | Done data \<Rightarrow>
                  Done (hex_EncodeToString salt @ ''-'' @ hex_EncodeToString iv @ ''-''
                          @ hex_EncodeToString data, None))))))"

text \<open>\<open>Decrypt\<close> returns a string; every error of a library call makes it return the
  empty string.\<close>

definition Decrypt :: "string \<Rightarrow> string \<Rightarrow> string exec" where
  "Decrypt passphrase ciphertext =
     (let arr = strings_Split ciphertext CHR ''-'' in
      if length arr \<noteq> 3 then Done ''''
      else
       (case hex_DecodeString (arr ! 0) of
          Inl err \<Rightarrow> Done ''''
        | Inr salt \<Rightarrow>
         (case hex_DecodeString (arr ! 1) of
            Inl err \<Rightarrow> Done ''''
          | Inr iv \<Rightarrow>
            if length iv \<noteq> 12 then Done ''''
            else
             (case hex_DecodeString (arr ! 2) of
                Inl err \<Rightarrow> Done ''''
              | Inr data \<Rightarrow>
               (case deriveKey passphrase salt of (key, _) \<Rightarrow>
                 (case aes_NewCipher key of
                    Inl err \<Rightarrow> Done ''''
                  | Inr b \<Rightarrow>
                   (case cipher_NewGCM b of
                      Inl err \<Rightarrow> Done ''''
                    | Inr aesgcm \<Rightarrow>
                     (case gcm_Open aesgcm iv data [] of
                        Panic \<Rightarrow> Panic
                      | Done (Inl err) \<Rightarrow> Done ''''
                      | Done (Inr data') \<Rightarrow> Done (string_of_bytes data')))))))))"

text \<open>Modelled from the spec: \<open>Hash\<close> of package \<open>encryption\<close> is called by the tests but
  its file is not among the sources. The spec (4.3): it computes the standard 256-bit hash
  of the bytes of its input and encodes the 32 bytes as 64 lowercase hexadecimal
  characters; the error it returns is never set for a standard input.\<close>

definition Hash :: "string \<Rightarrow> string \<times> error option" where
  "Hash input = (hex_EncodeToString (sha256_Sum (bytes_of_string input)), None)"

section \<open>Derived notions\<close>

text \<open>The AEAD that \<open>Encrypt\<close> and \<open>Decrypt\<close> obtain from \<open>aes.NewCipher\<close> and
  \<open>cipher.NewGCM\<close> for a key of 32 bytes, and the sizes every \<open>cipher.NewGCM\<close> result has.\<close>

definition aes_gcm :: "byte list \<Rightarrow> gcm" where
  "aes_gcm key =
     \<lparr>gcm_cipher = \<lparr>block_BlockSize = 16, block_Encrypt = aes_encryptBlock (aes_expandKey key)\<rparr>,
      gcm_nonceSize = 12, gcm_tagSize = 16\<rparr>"

definition std_gcm :: "gcm \<Rightarrow> bool" where
  "std_gcm g \<longleftrightarrow> gcm_nonceSize g = 12 \<and> gcm_tagSize g = 16 \<and> block_BlockSize (gcm_cipher g) = 16"

text \<open>The inputs that the spec calls malformed: the number of pieces between \<open>-\<close> is not
  three, a piece is not valid hexadecimal, or the nonce piece does not decode to 12 bytes.\<close>

definition malformed :: "string \<Rightarrow> bool" where
  "malformed ciphertext =
     (let arr = strings_Split ciphertext CHR ''-'' in
      length arr \<noteq> 3
      \<or> isl (hex_DecodeString (arr ! 0))
      \<or> isl (hex_DecodeString (arr ! 1))
      \<or> isl (hex_DecodeString (arr ! 2))
      \<or> (case hex_DecodeString (arr ! 1) of Inl err \<Rightarrow> False | Inr iv \<Rightarrow> length iv \<noteq> 12))"

text \<open>A valid hexadecimal string of even length, in the lowercase digits that
  \<open>hex.EncodeToString\<close> writes.\<close>

definition hex_text :: "string \<Rightarrow> bool" where
  "hex_text s \<longleftrightarrow> even (length s) \<and> set s \<subseteq> set ''0123456789abcdef''"

text \<open>The password-based key derivation function PBKDF2 as RFC 8018 states it, for
  comparison with \<open>pbkdf2.Key\<close>: \<open>U_1 = PRF (P, S || INT (i))\<close>, \<open>U_j = PRF (P, U_{j-1})\<close> and
  \<open>F (P, S, c, i) = U_1 xor U_2 xor ... xor U_c\<close>.\<close>

definition rfc8018_U :: "(byte list \<Rightarrow> byte list) \<Rightarrow> byte list \<Rightarrow> nat \<Rightarrow> byte list" where
  "rfc8018_U prf seed j = (prf ^^ j) seed"

definition rfc8018_F :: "(byte list \<Rightarrow> byte list) \<Rightarrow> byte list \<Rightarrow> nat \<Rightarrow> nat \<Rightarrow> byte list" where
  "rfc8018_F prf salt c i =
     (let seed = salt @ be_bytes32 (of_nat i)
      in foldl xor_bytes (rfc8018_U prf seed 1) (map (rfc8018_U prf seed) [2 ..< c + 1]))"




text \<open>The tag of a sealed text verifies when the text holds a tag, is not too long, and its
  last 16 bytes are the tag computed from the bytes before them. A tampered input has three
  hexadecimal pieces and a nonce of 12 bytes, and the tag of its last piece does not verify
  under the key derived from the passphrase and the salt piece.\<close>

definition tag_verifies :: "gcm \<Rightarrow> byte list \<Rightarrow> byte list \<Rightarrow> bool" where
  "tag_verifies g nonce data \<longleftrightarrow>
     gcm_tagSize g \<le> length data \<and>
     length data \<le> (2 ^ 32 - 2) * block_BlockSize (gcm_cipher g) + gcm_tagSize g \<and>
     take (gcm_tagSize g)
       (gcm_auth g (take (length data - gcm_tagSize g) data) []
          (block_Encrypt (gcm_cipher g) (gcm_deriveCounter nonce)))
       = drop (length data - gcm_tagSize g) data"

definition tampered :: "string \<Rightarrow> string \<Rightarrow> bool" where
  "tampered passphrase ciphertext =
     (case strings_Split ciphertext CHR ''-'' of
        [a, b, d] \<Rightarrow>
          (case (hex_DecodeString a, hex_DecodeString b, hex_DecodeString d) of
             (Inr salt, Inr iv, Inr data) \<Rightarrow>
               length iv = 12 \<and> \<not> tag_verifies (aes_gcm (fst (deriveKey passphrase salt))) iv data
           | _ \<Rightarrow> False)
      | _ \<Rightarrow> False)"

section \<open>Bytes, hexadecimal text and splitting\<close>

lemma string_of_bytes_of_string: "string_of_bytes (bytes_of_string s) = s"
  by (induction s) (simp_all add: string_of_bytes_def bytes_of_string_def unat_of_nat take_bit_nat_eq_self)



lemma reverseHexTable_hextable_upto:
  "list_all (\<lambda>n. reverseHexTable (hextable ! n) = of_nat n) [0 ..< 16]"
  by code_simp

lemma reverseHexTable_hextable:
  assumes "n < 16"
  shows "reverseHexTable (hextable ! n) = of_nat n"
  using assms reverseHexTable_hextable_upto by (simp add: list_all_iff)

lemma hextable_in: "n < 16 \<Longrightarrow> hextable ! n \<in> set hextable"
  by (rule nth_mem) (simp add: hextable_def)

lemma hi_nibble_lt: "unat (drop_bit 4 (v :: byte)) < 16"
proof -
  have "unat v < 2 ^ LENGTH(8)" by (rule unsigned_less)
  then show ?thesis by (simp add: drop_bit_eq_div unat_div)
qed

lemma lo_nibble_lt: "unat ((v :: byte) AND 0x0f) < 16"
proof -
  have "v AND 0x0f \<le> 0x0f" by (rule word_and_le1)
  then show ?thesis by (simp add: word_le_nat_alt)
qed

lemma nibbles_join: "push_bit 4 (drop_bit 4 v) OR (v AND 0x0f) = (v :: byte)"
proof -
  have "(0x0f :: byte) = mask 4" by (simp add: mask_eq_exp_minus_1)
  then show ?thesis
    by (simp add: bit_eq_iff bit_simps) (metis add_diff_inverse_nat nat_add_left_cancel_less not_less)
qed

lemma nibble_le: "n < 16 \<Longrightarrow> \<not> (of_nat n :: byte) > 0x0f"
  by (simp add: word_less_nat_alt unat_of_nat take_bit_nat_eq_self)

lemma hex_DecodeString_EncodeToString: "hex_DecodeString (hex_EncodeToString b) = Inr b"
proof (induction b)
  case Nil
  then show ?case by (simp add: hex_EncodeToString_def)
next
  case (Cons v b)
  have hi: "reverseHexTable (hextable ! unat (drop_bit 4 v)) = drop_bit 4 v"
    by (simp add: reverseHexTable_hextable hi_nibble_lt)
  have lo: "reverseHexTable (hextable ! unat (v AND 0x0f)) = v AND 0x0f"
    by (simp add: reverseHexTable_hextable lo_nibble_lt)
  have nhi: "\<not> drop_bit 4 v > 0x0f"
    using nibble_le [OF hi_nibble_lt [of v]] by simp
  have nlo: "\<not> (v AND 0x0f) > 0x0f"
    using nibble_le [OF lo_nibble_lt [of v]] by simp
  from Cons have "hex_DecodeString (concat (map (\<lambda>v. [hextable ! unat (drop_bit 4 v), hextable ! unat (v AND 0x0f)]) b)) = Inr b"
    by (simp add: hex_EncodeToString_def)
  then show ?case
    using hi lo nhi nlo by (simp add: hex_EncodeToString_def nibbles_join)
qed

lemma set_hex_EncodeToString: "set (hex_EncodeToString b) \<subseteq> set hextable"
  by (auto simp: hex_EncodeToString_def hextable_in hi_nibble_lt lo_nibble_lt)

lemma length_hex_EncodeToString: "length (hex_EncodeToString b) = 2 * length b"
  by (induction b) (simp_all add: hex_EncodeToString_def)

lemma dash_notin_hex: "CHR ''-'' \<notin> set (hex_EncodeToString b)"
  using set_hex_EncodeToString [of b] by (auto simp: hextable_def)

lemma strings_Split_none: "sep \<notin> set s \<Longrightarrow> strings_Split s sep = [s]"
  by (simp add: strings_Split.simps)

lemma strings_Split_first:
  assumes "sep \<notin> set a"
  shows "strings_Split (a @ sep # rest) sep = a # strings_Split rest sep"
proof -
  have t: "takeWhile (\<lambda>c. c \<noteq> sep) (a @ sep # rest) = a"
    using assms by (induction a) auto
  have d: "dropWhile (\<lambda>c. c \<noteq> sep) (a @ sep # rest) = sep # rest"
    using assms by (induction a) auto
  show ?thesis
    by (subst strings_Split.simps) (simp add: t d)
qed

lemma strings_Split_three:
  assumes "sep \<notin> set a" "sep \<notin> set b" "sep \<notin> set c"
  shows "strings_Split (a @ [sep] @ b @ [sep] @ c) sep = [a, b, c]"
  using assms by (simp add: strings_Split_first strings_Split_none)

lemma strings_Split_nonempty: "strings_Split s sep \<noteq> []"
  by (subst strings_Split.simps) simp

section \<open>Key derivation: lengths\<close>

lemma length_be_bytes32: "length (be_bytes32 w) = 4"
  by (simp add: be_bytes32_def)

lemma length_sha256_Sum: "length (sha256_Sum msg) = 32"
  by (simp add: sha256_Sum_def length_be_bytes32 split: prod.split)

lemma length_hmac_Sum_sha256: "length (hmac_Sum sha256_New key msg) = 32"
  by (simp add: hmac_Sum_def sha256_New_def length_sha256_Sum Let_def)

lemma length_xor_bytes: "length (xor_bytes a b) = min (length a) (length b)"
  by (simp add: xor_bytes_def)

lemma length_pbkdf2_loop:
  assumes "\<And>x. length (prf x) = k" and "length T = k"
  shows "length (pbkdf2_loop prf n U T) = k"
  using assms(2)
proof (induction n arbitrary: U T)
  case 0
  then show ?case by simp
next
  case (Suc n)
  then show ?case by (simp add: Let_def length_xor_bytes assms(1))
qed

lemma length_pbkdf2_block:
  assumes "\<And>x. length (prf x) = k"
  shows "length (pbkdf2_block prf salt iter blk) = k"
  by (simp add: pbkdf2_block_def Let_def length_pbkdf2_loop [OF assms] assms)

lemma length_pbkdf2_Key_sha256: "length (pbkdf2_Key password salt iter 32 sha256_New) = 32"
proof -
  have one: "[1 ..< Suc (Suc 0)] = [Suc 0]" by (simp add: upt_rec)
  have "length (pbkdf2_block (hmac_Sum sha256_New password) salt iter 1) = 32"
    by (rule length_pbkdf2_block) (rule length_hmac_Sum_sha256)
  then show ?thesis
    by (simp add: pbkdf2_Key_def Let_def sha256_New_def [THEN arg_cong, of hash_Size] one)
qed

lemma length_deriveKey: "length (fst (deriveKey passphrase salt)) = 32"
  by (simp add: deriveKey_def length_pbkdf2_Key_sha256)

section \<open>GCM: opening what was sealed\<close>

lemma length_be_bytes128: "length (be_bytes128 w) = 16"
  by (simp add: be_bytes128_def)

lemma xor_bytes_cancel: "length a \<le> length b \<Longrightarrow> xor_bytes (xor_bytes a b) b = a"
proof (induction a arbitrary: b)
  case Nil
  then show ?case by (simp add: xor_bytes_def)
next
  case (Cons x a)
  then obtain y b' where b: "b = y # b'" by (cases b) auto
  with Cons have "xor_bytes (xor_bytes a b') b' = a" by simp
  moreover have "(x XOR y) XOR y = x" by (simp add: xor.assoc)
  ultimately show ?case by (simp add: b xor_bytes_def)
qed

lemma length_gcm_counterCrypt: "length (gcm_counterCrypt g inp counter) = length inp"
proof (induction g inp counter rule: gcm_counterCrypt.induct)
  case (1 g inp counter)
  show ?case
  proof (cases "inp = []")
    case True
    then show ?thesis by (simp add: gcm_counterCrypt.simps)
  next
    case False
    with 1 have "length (gcm_counterCrypt g (drop gcmBlockSize inp) (gcmInc32 counter))
                   = length inp - gcmBlockSize"
      by simp
    with False show ?thesis
      by (subst gcm_counterCrypt.simps)
         (simp add: length_xor_bytes length_be_bytes128 gcmBlockSize_def)
  qed
qed

lemma gcm_counterCrypt_involution:
  "gcm_counterCrypt g (gcm_counterCrypt g inp counter) counter = inp"
proof (induction g inp counter rule: gcm_counterCrypt.induct)
  case (1 g inp counter)
  show ?case
  proof (cases "inp = []")
    case True
    then show ?thesis by (simp add: gcm_counterCrypt.simps)
  next
    case False
    define m where "m = be_bytes128 (block_Encrypt (gcm_cipher g) counter)"
    define hd' where "hd' = xor_bytes (take gcmBlockSize inp) m"
    define tl' where "tl' = gcm_counterCrypt g (drop gcmBlockSize inp) (gcmInc32 counter)"
    have out: "gcm_counterCrypt g inp counter = hd' @ tl'"
      using False by (subst gcm_counterCrypt.simps) (simp add: hd'_def tl'_def m_def)
    have lm: "length m = 16" by (simp add: m_def length_be_bytes128)
    have lh: "length hd' = min 16 (length inp)"
      by (simp add: hd'_def length_xor_bytes lm gcmBlockSize_def)
    have lt: "length tl' = length inp - 16"
      by (simp add: tl'_def length_gcm_counterCrypt gcmBlockSize_def)
    have "length hd' \<noteq> 0" using False lh by (cases inp) simp_all
    then have ne: "hd' @ tl' \<noteq> []" by auto
    have tk: "take gcmBlockSize (hd' @ tl') = hd'"
      using lh lt by (cases "length inp < 16") (simp_all add: gcmBlockSize_def)
    have dr: "drop gcmBlockSize (hd' @ tl') = tl'"
      using lh lt by (cases "length inp < 16") (simp_all add: gcmBlockSize_def)
    have x: "xor_bytes hd' m = take gcmBlockSize inp"
      unfolding hd'_def by (rule xor_bytes_cancel) (simp add: lm gcmBlockSize_def)
    have ih: "gcm_counterCrypt g tl' (gcmInc32 counter) = drop gcmBlockSize inp"
      unfolding tl'_def using 1 False by simp
    have "gcm_counterCrypt g (hd' @ tl') counter =
            xor_bytes (take gcmBlockSize (hd' @ tl')) m
              @ gcm_counterCrypt g (drop gcmBlockSize (hd' @ tl')) (gcmInc32 counter)"
      using ne by (subst gcm_counterCrypt.simps) (simp only: m_def if_False)
    also have "\<dots> = take gcmBlockSize inp @ drop gcmBlockSize inp"
      by (simp only: tk dr x ih)
    finally show ?thesis by (simp add: out)
  qed
qed

lemma length_gcm_auth: "length (gcm_auth g ciphertext additionalData tagMask) = 16"
  by (simp add: gcm_auth_def Let_def length_be_bytes128)

lemma gcm_Seal_Done:
  assumes "std_gcm g"
  shows "gcm_Seal g nonce plaintext data = Done ct \<longleftrightarrow>
           length nonce = 12 \<and> length plaintext \<le> (2 ^ 32 - 2) * 16 \<and>
           ct = gcm_counterCrypt g plaintext (gcmInc32 (gcm_deriveCounter nonce))
                @ gcm_auth g (gcm_counterCrypt g plaintext (gcmInc32 (gcm_deriveCounter nonce))) data
                     (block_Encrypt (gcm_cipher g) (gcm_deriveCounter nonce))"
  using assms by (auto simp: gcm_Seal_def std_gcm_def Let_def)

lemma gcm_Open_Seal:
  assumes g: "std_gcm g" and seal: "gcm_Seal g nonce plaintext data = Done ct"
  shows "gcm_Open g nonce ct data = Done (Inr plaintext)"
proof -
  define out where "out = gcm_counterCrypt g plaintext (gcmInc32 (gcm_deriveCounter nonce))"
  define tag where "tag = gcm_auth g out data (block_Encrypt (gcm_cipher g) (gcm_deriveCounter nonce))"
  from seal g have n: "length nonce = 12" and p: "length plaintext \<le> (2 ^ 32 - 2) * 16"
    and ct: "ct = out @ tag"
    by (simp_all add: gcm_Seal_Done out_def tag_def)
  have lo: "length out = length plaintext" by (simp add: out_def length_gcm_counterCrypt)
  have lt: "length tag = 16" by (simp add: tag_def length_gcm_auth)
  have dec: "gcm_counterCrypt g out (gcmInc32 (gcm_deriveCounter nonce)) = plaintext"
    by (simp add: out_def gcm_counterCrypt_involution)
  show ?thesis
    using g n p lo lt dec
    by (simp add: gcm_Open_def std_gcm_def Let_def ct gcmMinimumTagSize_def tag_def [symmetric])
qed

section \<open>Encrypt and Decrypt in terms of the AEAD\<close>

lemma std_gcm_aes_gcm: "std_gcm (aes_gcm key)"
  by (simp add: std_gcm_def aes_gcm_def)

lemma aes_NewCipher_32: "length key = 32 \<Longrightarrow>
  aes_NewCipher key = Inr \<lparr>block_BlockSize = 16, block_Encrypt = aes_encryptBlock (aes_expandKey key)\<rparr>"
  by (simp add: aes_NewCipher_def)

lemma cipher_NewGCM_aes: 
  "cipher_NewGCM \<lparr>block_BlockSize = 16, block_Encrypt = aes_encryptBlock (aes_expandKey key)\<rparr>
     = Inr (aes_gcm key)"
  by (simp add: cipher_NewGCM_def aes_gcm_def gcmBlockSize_def gcmStandardNonceSize_def gcmTagSize_def)

lemma cipher_NewGCM_std: "cipher_NewGCM b = Inr g \<Longrightarrow> std_gcm g"
  by (auto simp: cipher_NewGCM_def std_gcm_def gcmBlockSize_def gcmStandardNonceSize_def
      gcmTagSize_def split: if_splits)

lemma Encrypt_eq:
  "Encrypt rnd p m =
     (case rnd of
        None \<Rightarrow> Done ('''', Some ErrRandom)
      | Some f \<Rightarrow>
         (case gcm_Seal (aes_gcm (fst (deriveKey p []))) (map f [0 ..< 12]) (bytes_of_string m) [] of
            Panic \<Rightarrow> Panic
          | Done data \<Rightarrow>
              Done (''-'' @ hex_EncodeToString (map f [0 ..< 12]) @ ''-'' @ hex_EncodeToString data, None)))"
proof -
  obtain key salt where d: "deriveKey p [] = (key, salt)" by (cases "deriveKey p []")
  then have salt: "salt = []" by (simp add: deriveKey_def)
  from d have "length key = 32" using length_deriveKey [of p "[]"] by simp
  then show ?thesis
    by (simp add: Encrypt_def d salt rand_Read_def aes_NewCipher_32 cipher_NewGCM_aes
        hex_EncodeToString_def split: option.split exec.split)
qed

lemma Decrypt_parsed:
  assumes "strings_Split c CHR ''-'' = [a, b, d]"
    and "hex_DecodeString a = Inr salt" and "hex_DecodeString b = Inr iv" and "length iv = 12"
    and "hex_DecodeString d = Inr data"
  shows "Decrypt p c =
          (case gcm_Open (aes_gcm (fst (deriveKey p salt))) iv data [] of
             Panic \<Rightarrow> Panic
           | Done (Inl err) \<Rightarrow> Done ''''
           | Done (Inr data') \<Rightarrow> Done (string_of_bytes data'))"
proof -
  obtain key s' where d: "deriveKey p salt = (key, s')" by (cases "deriveKey p salt")
  then have "length key = 32" using length_deriveKey [of p salt] by simp
  then show ?thesis
    using assms by (simp add: Decrypt_def d aes_NewCipher_32 cipher_NewGCM_aes)
qed

lemma gcm_Open_no_panic:
  assumes "std_gcm g" and "length iv = 12"
  shows "gcm_Open g iv data ad \<noteq> Panic"
  using assms by (simp add: gcm_Open_def std_gcm_def gcmMinimumTagSize_def Let_def)

lemma Decrypt_no_panic: "Decrypt p c \<noteq> Panic"
  by (auto simp: Decrypt_def Let_def gcm_Open_no_panic cipher_NewGCM_std
      split: sum.splits prod.splits exec.splits)

lemma length_bytes_of_string: "length (bytes_of_string s) = length s"
  by (simp add: bytes_of_string_def)

lemma hex_DecodeString_empty: "hex_DecodeString [] = Inr []"
  by simp

lemma strings_Split_envelope:
  "strings_Split (hex_EncodeToString s @ ''-'' @ hex_EncodeToString n @ ''-'' @ hex_EncodeToString c) CHR ''-''
     = [hex_EncodeToString s, hex_EncodeToString n, hex_EncodeToString c]"
  using strings_Split_three [of "CHR ''-''" "hex_EncodeToString s" "hex_EncodeToString n" "hex_EncodeToString c"]
  by (simp add: dash_notin_hex)

lemma Decrypt_envelope:
  assumes "length n = 12"
  shows "Decrypt p (hex_EncodeToString s @ ''-'' @ hex_EncodeToString n @ ''-'' @ hex_EncodeToString c) =
          (case gcm_Open (aes_gcm (fst (deriveKey p s))) n c [] of
             Panic \<Rightarrow> Panic
           | Done (Inl err) \<Rightarrow> Done ''''
           | Done (Inr data') \<Rightarrow> Done (string_of_bytes data'))"
  by (rule Decrypt_parsed [OF strings_Split_envelope]) (simp_all add: hex_DecodeString_EncodeToString assms)

lemma Decrypt_sealed:
  assumes "gcm_Seal (aes_gcm (fst (deriveKey p s))) n (bytes_of_string m) [] = Done c"
  shows "Decrypt p (hex_EncodeToString s @ ''-'' @ hex_EncodeToString n @ ''-'' @ hex_EncodeToString c) = Done m"
proof -
  from assms have n: "length n = 12"
    by (simp add: gcm_Seal_Done [OF std_gcm_aes_gcm])
  have "gcm_Open (aes_gcm (fst (deriveKey p s))) n c [] = Done (Inr (bytes_of_string m))"
    by (rule gcm_Open_Seal [OF std_gcm_aes_gcm assms])
  then show ?thesis
    using Decrypt_envelope [OF n, of p s c] by (simp add: string_of_bytes_of_string)
qed

lemma Encrypt_Done:
  assumes "Encrypt rnd p m = Done (E, None)"
  obtains f c where "rnd = Some f"
    and "gcm_Seal (aes_gcm (fst (deriveKey p []))) (map f [0 ..< 12]) (bytes_of_string m) [] = Done c"
    and "E = hex_EncodeToString [] @ ''-'' @ hex_EncodeToString (map f [0 ..< 12]) @ ''-'' @ hex_EncodeToString c"
  using assms
  by (auto simp: Encrypt_eq hex_EncodeToString_def split: option.splits exec.splits)

lemma Encrypt_returns:
  assumes "length m \<le> (2 ^ 32 - 2) * 16"
  shows "\<exists>E. Encrypt (Some f) p m = Done (E, None)"
proof -
  have "\<exists>c. gcm_Seal (aes_gcm (fst (deriveKey p []))) (map f [0 ..< 12]) (bytes_of_string m) [] = Done c"
    using assms by (simp add: gcm_Seal_Done [OF std_gcm_aes_gcm] length_bytes_of_string)
  then show ?thesis by (auto simp: Encrypt_eq)
qed

lemma Decrypt_malformed: "malformed c \<Longrightarrow> Decrypt p c = Done ''''"
  unfolding malformed_def Decrypt_def Let_def
  by (auto split: sum.splits prod.splits exec.splits)

lemma split_ex0: "strings_Split '''' CHR ''-'' = ['''']"
  by (simp add: strings_Split_none)

lemma split_ex1: "strings_Split ''no dashes'' CHR ''-'' = [''no dashes'']"
  by (simp add: strings_Split_none)

lemma split_ex2: "strings_Split ''a-b-c-d'' CHR ''-'' = [''a'', ''b'', ''c'', ''d'']"
  using strings_Split_first [of "CHR ''-''" "''a''" "''b-c-d''"]
    strings_Split_first [of "CHR ''-''" "''b''" "''c-d''"]
    strings_Split_first [of "CHR ''-''" "''c''" "''d''"]
  by (simp add: strings_Split_none)

lemma split_ex3: "strings_Split ''zz-zz-zz'' CHR ''-'' = [''zz'', ''zz'', ''zz'']"
  using strings_Split_three [of "CHR ''-''" "''zz''" "''zz''" "''zz''"] by simp

lemma split_ex4:
  "strings_Split ''-00000000000000000000000000-'' CHR ''-'' = ['''', ''00000000000000000000000000'', '''']"
  using strings_Split_three [of "CHR ''-''" "''''" "''00000000000000000000000000''" "''''"] by simp

lemma gcm_Open_short:
  assumes "std_gcm g" and "length iv = 12" and "length data < 16"
  shows "gcm_Open g iv data ad = Done (Inl ErrOpen)"
  using assms by (simp add: gcm_Open_def std_gcm_def gcmMinimumTagSize_def)

lemma new_cipher_deriveKey:
  "\<exists>b. aes_NewCipher (fst (deriveKey p s)) = Inr b \<and> cipher_NewGCM b = Inr (aes_gcm (fst (deriveKey p s)))"
  using aes_NewCipher_32 [OF length_deriveKey [of p s]] cipher_NewGCM_aes [of "fst (deriveKey p s)"]
  by simp

section \<open>The envelope and the key derivation function\<close>

lemma hex_text_hex_EncodeToString: "hex_text (hex_EncodeToString b)"
  using set_hex_EncodeToString [of b]
  by (simp add: hex_text_def length_hex_EncodeToString hextable_def)

lemma length_gcm_Seal:
  assumes "std_gcm g" and "gcm_Seal g n pt ad = Done c"
  shows "length c = length pt + 16"
  using assms by (auto simp: gcm_Seal_Done length_gcm_counterCrypt length_gcm_auth)

lemma pbkdf2_loop_fold:
  "pbkdf2_loop prf n U T = foldl xor_bytes T (map (\<lambda>k. (prf ^^ Suc k) U) [0 ..< n])"
proof (induction n arbitrary: U T)
  case 0
  then show ?case by simp
next
  case (Suc n)
  have up: "[0 ..< Suc n] = 0 # map Suc [0 ..< n]"
    by (simp only: map_Suc_upt upt_conv_Cons [OF zero_less_Suc])
  have sw: "\<And>k. (prf ^^ Suc k) (prf U) = (prf ^^ Suc (Suc k)) U"
    by (simp add: funpow_swap1)
  have "pbkdf2_loop prf (Suc n) U T = pbkdf2_loop prf n (prf U) (xor_bytes T (prf U))"
    by (simp add: Let_def)
  also have "\<dots> = foldl xor_bytes (xor_bytes T (prf U)) (map (\<lambda>k. (prf ^^ Suc k) (prf U)) [0 ..< n])"
    by (rule Suc)
  also have "\<dots> = foldl xor_bytes T (map (\<lambda>k. (prf ^^ Suc k) U) (0 # map Suc [0 ..< n]))"
    by (simp add: funpow_swap1 comp_def)
  finally show ?case by (simp only: up)
qed

lemma upt_shift2:
  assumes "0 < c"
  shows "[2 ..< c + 1] = map (\<lambda>k. Suc (Suc k)) [0 ..< c - 1]"
proof -
  have "map (\<lambda>k. Suc (Suc k)) [0 ..< c - 1] = map Suc (map Suc [0 ..< c - 1])"
    by (simp add: comp_def)
  also have "\<dots> = [Suc (Suc 0) ..< Suc (Suc (c - 1))]"
    by (simp only: map_Suc_upt)
  also have "Suc (Suc (c - 1)) = c + 1" using assms by simp
  finally show ?thesis by (simp add: numeral_2_eq_2)
qed

lemma pbkdf2_block_rfc:
  assumes "0 < iter"
  shows "pbkdf2_block prf salt iter i = rfc8018_F prf salt iter i"
proof -
  let ?seed = "salt @ be_bytes32 (of_nat i)"
  have sw: "\<And>k. (prf ^^ Suc k) (prf ?seed) = (prf ^^ Suc (Suc k)) ?seed"
    by (simp add: funpow_swap1)
  have "pbkdf2_block prf salt iter i
          = foldl xor_bytes (prf ?seed) (map (\<lambda>k. (prf ^^ Suc k) (prf ?seed)) [0 ..< iter - 1])"
    by (simp add: pbkdf2_block_def Let_def pbkdf2_loop_fold)
  also have "\<dots> = foldl xor_bytes (prf ?seed) (map (\<lambda>k. (prf ^^ Suc (Suc k)) ?seed) [0 ..< iter - 1])"
    by (simp only: sw)
  also have "\<dots> = foldl xor_bytes (rfc8018_U prf ?seed 1)
                      (map (rfc8018_U prf ?seed) (map (\<lambda>k. Suc (Suc k)) [0 ..< iter - 1]))"
    by (simp add: rfc8018_U_def comp_def)
  also have "\<dots> = rfc8018_F prf salt iter i"
    by (simp only: rfc8018_F_def Let_def upt_shift2 [OF assms])
  finally show ?thesis .
qed

lemma pbkdf2_Key_sha256_rfc:
  assumes "0 < iter"
  shows "pbkdf2_Key password salt iter 32 sha256_New = rfc8018_F (hmac_Sum sha256_New password) salt iter 1"
proof -
  have one: "[1 ..< Suc (Suc 0)] = [Suc 0]" by (simp add: upt_rec)
  have len: "length (pbkdf2_block (hmac_Sum sha256_New password) salt iter 1) = 32"
    by (rule length_pbkdf2_block) (rule length_hmac_Sum_sha256)
  have "pbkdf2_Key password salt iter 32 sha256_New = pbkdf2_block (hmac_Sum sha256_New password) salt iter 1"
    using len by (simp add: pbkdf2_Key_def Let_def sha256_New_def [THEN arg_cong, of hash_Size] one)
  then show ?thesis by (simp add: pbkdf2_block_rfc [OF assms])
qed

section \<open>Outcomes of Encrypt, and keys shared by passphrases\<close>





lemma gcm_Open_iff_Seal:
  assumes "std_gcm g"
  shows "gcm_Open g n c ad = Done (Inr pt) \<longleftrightarrow> gcm_Seal g n pt ad = Done c"
proof
  assume "gcm_Seal g n pt ad = Done c"
  then show "gcm_Open g n c ad = Done (Inr pt)" by (rule gcm_Open_Seal [OF assms])
next
  assume op: "gcm_Open g n c ad = Done (Inr pt)"
  define body where "body = take (length c - 16) c"
  define tag where "tag = drop (length c - 16) c"
  define ctr where "ctr = gcm_deriveCounter n"
  define mask where "mask = block_Encrypt (gcm_cipher g) ctr"
  from assms have sz: "gcm_nonceSize g = 12" "gcm_tagSize g = 16" "block_BlockSize (gcm_cipher g) = 16"
    by (simp_all add: std_gcm_def)
  from op have n: "length n = 12"
    by (auto simp: gcm_Open_def sz split: if_splits)
  from op n have lc: "16 \<le> length c"
    by (auto simp: gcm_Open_def sz gcmMinimumTagSize_def split: if_splits)
  from op n lc have ub: "length c \<le> (2 ^ 32 - 2) * 16 + 16"
    by (auto simp: gcm_Open_def sz gcmMinimumTagSize_def split: if_splits)
  from op n lc ub have tg: "take 16 (gcm_auth g body ad mask) = tag"
    and pt: "pt = gcm_counterCrypt g body (gcmInc32 ctr)"
    by (auto simp: gcm_Open_def sz gcmMinimumTagSize_def Let_def body_def tag_def ctr_def mask_def
        split: if_splits)
  from tg have tg': "gcm_auth g body ad mask = tag" by (simp add: length_gcm_auth)
  have c: "c = body @ tag" by (simp add: body_def tag_def)
  have lb: "length body = length c - 16" by (simp add: body_def)
  have lp: "length pt = length c - 16" by (simp add: pt length_gcm_counterCrypt lb)
  have enc: "gcm_counterCrypt g pt (gcmInc32 ctr) = body"
    by (simp add: pt gcm_counterCrypt_involution)
  show "gcm_Seal g n pt ad = Done c"
    using n lp ub lc enc tg'
    by (simp add: gcm_Seal_Done [OF assms] ctr_def [symmetric] mask_def [symmetric] c)
qed



section \<open>Tampered inputs\<close>

lemma gcm_Open_tag:
  assumes "std_gcm g" and "length iv = 12"
  shows "gcm_Open g iv data [] =
           (if tag_verifies g iv data
            then Done (Inr (gcm_counterCrypt g (take (length data - 16) data) (gcmInc32 (gcm_deriveCounter iv))))
            else Done (Inl ErrOpen))"
  using assms
  by (auto simp: gcm_Open_def tag_verifies_def std_gcm_def gcmMinimumTagSize_def Let_def)

lemma tag_verifies_iff_Seal:
  assumes "std_gcm g" and "length iv = 12"
  shows "tag_verifies g iv data \<longleftrightarrow> (\<exists>plaintext. gcm_Seal g iv plaintext [] = Done data)"
proof -
  have "tag_verifies g iv data \<longleftrightarrow> (\<exists>pt. gcm_Open g iv data [] = Done (Inr pt))"
    by (simp add: gcm_Open_tag [OF assms])
  then show ?thesis by (simp add: gcm_Open_iff_Seal [OF assms(1)])
qed

lemma Decrypt_tampered:
  assumes "tampered p c"
  shows "Decrypt p c = Done ''''"
proof -
  from assms obtain a b d where sp: "strings_Split c CHR ''-'' = [a, b, d]"
    by (auto simp: tampered_def split: list.splits)
  with assms obtain salt iv data where
    ha: "hex_DecodeString a = Inr salt"
    and hb: "hex_DecodeString b = Inr iv"
    and hd: "hex_DecodeString d = Inr data"
    and n: "length iv = 12"
    and tv: "\<not> tag_verifies (aes_gcm (fst (deriveKey p salt))) iv data"
    by (auto simp: tampered_def split: sum.splits)
  show ?thesis
    using tv Decrypt_parsed [OF sp ha hb n hd, of p] gcm_Open_tag [OF std_gcm_aes_gcm n]
    by simp
qed

lemma split_ex5:
  "strings_Split ''-000102030405060708090a0b-00ff'' CHR ''-'' = ['''', ''000102030405060708090a0b'', ''00ff'']"
  using strings_Split_three [of "CHR ''-''" "''''" "''000102030405060708090a0b''" "''00ff''"] by simp

lemma tampered_ex: "tampered ''hunter2'' ''-000102030405060708090a0b-00ff''"
proof -
  have h0: "hex_DecodeString '''' = Inr []" by simp
  have h1: "hex_DecodeString ''000102030405060708090a0b'' = Inr [0, 1, 2, 3, 4, 5, 6, 7, 8, 9, 10, 11]"
    by (simp add: reverseHexTable_def)
  have h3: "hex_DecodeString ''00ff'' = Inr [0x00, 0xff]" by (simp add: reverseHexTable_def)
  have tv: "\<not> tag_verifies (aes_gcm (fst (deriveKey ''hunter2'' []))) [0, 1, 2, 3, 4, 5, 6, 7, 8, 9, 10, 11]
              [0x00, 0xff]"
    by (simp add: tag_verifies_def aes_gcm_def)
  show ?thesis
    by (simp only: tampered_def split_ex5 h0 h1 h3 list.case sum.case prod.case) (simp add: tv)
qed

section \<open>The primitives on published test vectors\<close>

text \<open>SHA-256 of \<open>abc\<close> (FIPS 180-4), the digest of the empty input that the spec quotes for
  \<open>Hash\<close>, and one iteration of PBKDF2 over HMAC-SHA-256 on a well-known input, all computed
  from the definitions above.\<close>

lemma sha256_Sum_abc:
  "hex_EncodeToString (sha256_Sum (bytes_of_string ''abc''))
     = ''ba7816bf8f01cfea414140de5dae2223b00361a396177a9cb410ff61f20015ad''"
  by code_simp

lemma Hash_empty:
  "Hash '''' = (''e3b0c44298fc1c149afbf4c8996fb92427ae41e4649b934ca495991b7852b855'', None)"
  by code_simp

lemma pbkdf2_Key_example:
  "hex_EncodeToString (pbkdf2_Key (bytes_of_string ''password'') (bytes_of_string ''salt'') 1 32 sha256_New)
     = ''120fb6cffcf8b32c43e7225256c4f837a86548c92ccc35480805987cb70be17b''"
  by code_simp

section \<open>Claims\<close>

text \<open>C1. Round trip: whenever \<open>Encrypt\<close> returns an envelope and no error, \<open>Decrypt\<close> with
  the same passphrase returns exactly the plaintext, whatever bytes the passphrase and the
  plaintext hold and whatever nonce the platform supplied.\<close>

theorem Decrypt_Encrypt_roundtrip:
  assumes "Encrypt rnd p m = Done (E, None)"
  shows "Decrypt p E = Done m"
proof -
  from assms obtain f c where
    seal: "gcm_Seal (aes_gcm (fst (deriveKey p []))) (map f [0 ..< 12]) (bytes_of_string m) [] = Done c"
    and E: "E = hex_EncodeToString [] @ ''-'' @ hex_EncodeToString (map f [0 ..< 12]) @ ''-'' @ hex_EncodeToString c"
    by (rule Encrypt_Done)
  show ?thesis unfolding E by (rule Decrypt_sealed [OF seal])
qed

theorem Decrypt_Encrypt_roundtrip_witness:
  "\<exists>E. Encrypt (Some (\<lambda>i. of_nat i)) ''hunter2'' ''seed phrase here'' = Done (E, None)
       \<and> Decrypt ''hunter2'' E = Done ''seed phrase here''"
proof -
  have "length ''seed phrase here'' \<le> (2 ^ 32 - 2) * 16" by simp
  then obtain E where E: "Encrypt (Some (\<lambda>i. of_nat i)) ''hunter2'' ''seed phrase here'' = Done (E, None)"
    using Encrypt_returns by blast
  from Decrypt_Encrypt_roundtrip [OF E] E show ?thesis by blast
qed

text \<open>C2. \<open>Decrypt\<close> is total: for every passphrase and every input it returns a string and
  never panics; on every malformed input (the empty string, a number of pieces other than
  three, a piece that is not hexadecimal, a nonce of a length other than 12 bytes) and on
  every tampered input the string it returns is empty.\<close>

theorem Decrypt_total:
  "(\<exists>s. Decrypt p c = Done s)
   \<and> (malformed c \<longrightarrow> Decrypt p c = Done '''')
   \<and> (tampered p c \<longrightarrow> Decrypt p c = Done '''')"
proof (intro conjI)
  show "\<exists>s. Decrypt p c = Done s"
    using Decrypt_no_panic [of p c] by (cases "Decrypt p c") auto
  show "malformed c \<longrightarrow> Decrypt p c = Done ''''"
    by (simp add: Decrypt_malformed)
  show "tampered p c \<longrightarrow> Decrypt p c = Done ''''"
    by (simp add: Decrypt_tampered)
qed

theorem Decrypt_total_witness:
  "malformed '''' \<and> Decrypt ''hunter2'' '''' = Done ''''
   \<and> malformed ''no dashes'' \<and> Decrypt ''hunter2'' ''no dashes'' = Done ''''
   \<and> malformed ''a-b-c-d'' \<and> Decrypt ''hunter2'' ''a-b-c-d'' = Done ''''
   \<and> malformed ''zz-zz-zz'' \<and> Decrypt ''hunter2'' ''zz-zz-zz'' = Done ''''
   \<and> malformed ''-00000000000000000000000000-''
   \<and> Decrypt ''hunter2'' ''-00000000000000000000000000-'' = Done ''''
   \<and> tampered ''hunter2'' ''-000102030405060708090a0b-00ff''
   \<and> Decrypt ''hunter2'' ''-000102030405060708090a0b-00ff'' = Done ''''"
proof -
  have m0: "malformed ''''" by (simp add: malformed_def split_ex0)
  have m1: "malformed ''no dashes''" by (simp add: malformed_def split_ex1)
  have m2: "malformed ''a-b-c-d''" by (simp add: malformed_def split_ex2)
  have m3: "malformed ''zz-zz-zz''" by (simp add: malformed_def split_ex3 reverseHexTable_def)
  have m4: "malformed ''-00000000000000000000000000-''"
    by (simp add: malformed_def split_ex4 reverseHexTable_def)
  show ?thesis
    using m0 m1 m2 m3 m4 tampered_ex
      Decrypt_total [of "''hunter2''" "''''"] Decrypt_total [of "''hunter2''" "''no dashes''"]
      Decrypt_total [of "''hunter2''" "''a-b-c-d''"] Decrypt_total [of "''hunter2''" "''zz-zz-zz''"]
      Decrypt_total [of "''hunter2''" "''-00000000000000000000000000-''"]
      Decrypt_total [of "''hunter2''" "''-000102030405060708090a0b-00ff''"]
    by blast
qed




text \<open>C4. Envelope shape: the string of a successful \<open>Encrypt\<close> splits at \<open>-\<close> into exactly
  three pieces, each a hexadecimal string of even length; the salt piece is empty, the nonce
  piece decodes to exactly 12 bytes, and the last piece decodes to the plaintext's length
  plus the 16 bytes of the tag.\<close>

theorem Encrypt_envelope_shape:
  assumes "Encrypt rnd p m = Done (E, None)"
  shows "\<exists>salt iv data n d.
           strings_Split E CHR ''-'' = [salt, iv, data] \<and>
           hex_text salt \<and> hex_text iv \<and> hex_text data \<and>
           salt = '''' \<and>
           hex_DecodeString salt = Inr [] \<and>
           hex_DecodeString iv = Inr n \<and> length n = 12 \<and>
           hex_DecodeString data = Inr d \<and> length d = length m + 16"
proof -
  from assms obtain f c where
    seal: "gcm_Seal (aes_gcm (fst (deriveKey p []))) (map f [0 ..< 12]) (bytes_of_string m) [] = Done c"
    and E: "E = hex_EncodeToString [] @ ''-'' @ hex_EncodeToString (map f [0 ..< 12]) @ ''-'' @ hex_EncodeToString c"
    by (rule Encrypt_Done)
  have sp: "strings_Split E CHR ''-'' = [hex_EncodeToString [], hex_EncodeToString (map f [0 ..< 12]), hex_EncodeToString c]"
    unfolding E by (rule strings_Split_envelope)
  have e: "hex_EncodeToString [] = ''''" by (simp add: hex_EncodeToString_def)
  have lc: "length c = length m + 16"
    using length_gcm_Seal [OF std_gcm_aes_gcm seal] by (simp add: length_bytes_of_string)
  have ln: "length (map f [0 ..< 12]) = 12" by simp
  show ?thesis
    using sp e lc ln hex_text_hex_EncodeToString hex_DecodeString_EncodeToString
    by metis
qed

theorem Encrypt_envelope_shape_witness:
  "\<exists>E salt iv data n d.
     Encrypt (Some of_nat) ''hunter2'' ''seed phrase here'' = Done (E, None) \<and>
     strings_Split E CHR ''-'' = [salt, iv, data] \<and>
     hex_text salt \<and> hex_text iv \<and> hex_text data \<and> salt = '''' \<and>
     hex_DecodeString salt = Inr [] \<and>
     hex_DecodeString iv = Inr n \<and> length n = 12 \<and>
     hex_DecodeString data = Inr d \<and> length d = length ''seed phrase here'' + 16"
proof -
  have "length ''seed phrase here'' \<le> (2 ^ 32 - 2) * 16" by simp
  then obtain E where E: "Encrypt (Some of_nat) ''hunter2'' ''seed phrase here'' = Done (E, None)"
    using Encrypt_returns by blast
  from Encrypt_envelope_shape [OF E] E show ?thesis by blast
qed

text \<open>C5. Every key of an encryption is derived with the empty salt: any two successful
  calls of \<open>Encrypt\<close> with one passphrase seal their plaintexts under the same AEAD, built
  from the one key \<open>pbkdf2.Key (passphrase, empty salt, 1000, 32, SHA-256)\<close>, whatever the
  nonces and the plaintexts are, and the salt piece they write is empty.\<close>

theorem Encrypt_key_from_empty_salt:
  assumes "Encrypt rnd1 p m1 = Done (E1, None)" and "Encrypt rnd2 p m2 = Done (E2, None)"
  shows "\<exists>key b g iv1 d1 iv2 d2.
           deriveKey p [] = (key, []) \<and>
           key = pbkdf2_Key (bytes_of_string p) [] 1000 32 sha256_New \<and>
           aes_NewCipher key = Inr b \<and> cipher_NewGCM b = Inr g \<and>
           rand_Read rnd1 12 = Inr iv1 \<and> gcm_Seal g iv1 (bytes_of_string m1) [] = Done d1 \<and>
           E1 = ''-'' @ hex_EncodeToString iv1 @ ''-'' @ hex_EncodeToString d1 \<and>
           rand_Read rnd2 12 = Inr iv2 \<and> gcm_Seal g iv2 (bytes_of_string m2) [] = Done d2 \<and>
           E2 = ''-'' @ hex_EncodeToString iv2 @ ''-'' @ hex_EncodeToString d2"
proof -
  let ?key = "fst (deriveKey p [])"
  from assms(1) obtain f1 c1 where
    r1: "rnd1 = Some f1"
    and s1: "gcm_Seal (aes_gcm ?key) (map f1 [0 ..< 12]) (bytes_of_string m1) [] = Done c1"
    and E1: "E1 = hex_EncodeToString [] @ ''-'' @ hex_EncodeToString (map f1 [0 ..< 12]) @ ''-'' @ hex_EncodeToString c1"
    by (rule Encrypt_Done)
  from assms(2) obtain f2 c2 where
    r2: "rnd2 = Some f2"
    and s2: "gcm_Seal (aes_gcm ?key) (map f2 [0 ..< 12]) (bytes_of_string m2) [] = Done c2"
    and E2: "E2 = hex_EncodeToString [] @ ''-'' @ hex_EncodeToString (map f2 [0 ..< 12]) @ ''-'' @ hex_EncodeToString c2"
    by (rule Encrypt_Done)
  obtain b where b: "aes_NewCipher ?key = Inr b" "cipher_NewGCM b = Inr (aes_gcm ?key)"
    using new_cipher_deriveKey by blast
  have d: "deriveKey p [] = (?key, [])" by (simp add: deriveKey_def)
  have k: "?key = pbkdf2_Key (bytes_of_string p) [] 1000 32 sha256_New" by (simp add: deriveKey_def)
  have rr1: "rand_Read rnd1 12 = Inr (map f1 [0 ..< 12])" by (simp add: rand_Read_def r1)
  have rr2: "rand_Read rnd2 12 = Inr (map f2 [0 ..< 12])" by (simp add: rand_Read_def r2)
  have e: "hex_EncodeToString [] = ''''" by (simp add: hex_EncodeToString_def)
  from E1 e have E1': "E1 = ''-'' @ hex_EncodeToString (map f1 [0 ..< 12]) @ ''-'' @ hex_EncodeToString c1" by simp
  from E2 e have E2': "E2 = ''-'' @ hex_EncodeToString (map f2 [0 ..< 12]) @ ''-'' @ hex_EncodeToString c2" by simp
  from d k b rr1 s1 E1' rr2 s2 E2' show ?thesis by blast
qed

theorem Encrypt_key_from_empty_salt_witness:
  "\<exists>E1 E2 key b g iv1 d1 iv2 d2.
     Encrypt (Some of_nat) ''hunter2'' ''seed phrase here'' = Done (E1, None) \<and>
     Encrypt (Some (of_nat \<circ> Suc)) ''hunter2'' ''another secret'' = Done (E2, None) \<and>
     deriveKey ''hunter2'' [] = (key, []) \<and>
     key = pbkdf2_Key (bytes_of_string ''hunter2'') [] 1000 32 sha256_New \<and>
     aes_NewCipher key = Inr b \<and> cipher_NewGCM b = Inr g \<and>
     rand_Read (Some of_nat) 12 = Inr iv1 \<and>
     gcm_Seal g iv1 (bytes_of_string ''seed phrase here'') [] = Done d1 \<and>
     E1 = ''-'' @ hex_EncodeToString iv1 @ ''-'' @ hex_EncodeToString d1 \<and>
     rand_Read (Some (of_nat \<circ> Suc)) 12 = Inr iv2 \<and>
     gcm_Seal g iv2 (bytes_of_string ''another secret'') [] = Done d2 \<and>
     E2 = ''-'' @ hex_EncodeToString iv2 @ ''-'' @ hex_EncodeToString d2"
proof -
  have "length ''seed phrase here'' \<le> (2 ^ 32 - 2) * 16" by simp
  then obtain E1 where E1: "Encrypt (Some of_nat) ''hunter2'' ''seed phrase here'' = Done (E1, None)"
    using Encrypt_returns by blast
  have "length ''another secret'' \<le> (2 ^ 32 - 2) * 16" by simp
  then obtain E2 where E2: "Encrypt (Some (of_nat \<circ> Suc)) ''hunter2'' ''another secret'' = Done (E2, None)"
    using Encrypt_returns by blast
  from Encrypt_key_from_empty_salt [OF E1 E2] E1 E2 show ?thesis by blast
qed

text \<open>C6. \<open>deriveKey\<close> is a function of the passphrase and the salt alone, with no error
  result: its key is \<open>pbkdf2.Key\<close> with 1000 iterations, 32 bytes of output and SHA-256, which
  is the block \<open>F (P, S, 1000, 1)\<close> of RFC 8018 over HMAC-SHA-256, and has 32 bytes; the salt
  is returned unchanged.\<close>

theorem deriveKey_pbkdf2:
  "deriveKey p s = (pbkdf2_Key (bytes_of_string p) s 1000 32 sha256_New, s) \<and>
   fst (deriveKey p s) = rfc8018_F (hmac_Sum sha256_New (bytes_of_string p)) s 1000 1 \<and>
   length (fst (deriveKey p s)) = 32"
proof (intro conjI)
  show "deriveKey p s = (pbkdf2_Key (bytes_of_string p) s 1000 32 sha256_New, s)"
    by (simp add: deriveKey_def)
  show "fst (deriveKey p s) = rfc8018_F (hmac_Sum sha256_New (bytes_of_string p)) s 1000 1"
    by (simp add: deriveKey_def pbkdf2_Key_sha256_rfc)
  show "length (fst (deriveKey p s)) = 32"
    by (rule length_deriveKey)
qed




text \<open>C8. \<open>Hash\<close> is a function of its input: the SHA-256 digest of the input's bytes in
  hexadecimal, always 64 characters, each one of \<open>0123456789abcdef\<close>, with no error.\<close>

theorem Hash_digest_shape:
  "Hash x = (hex_EncodeToString (sha256_Sum (bytes_of_string x)), None) \<and>
   length (fst (Hash x)) = 64 \<and>
   set (fst (Hash x)) \<subseteq> set ''0123456789abcdef''"
  using set_hex_EncodeToString [of "sha256_Sum (bytes_of_string x)"]
  by (simp add: Hash_def length_hex_EncodeToString length_sha256_Sum hextable_def)



text \<open>C10. An input of three hexadecimal pieces with a nonce of 12 bytes whose ciphertext
  piece decodes to fewer than 16 bytes, the length of the authentication tag, makes \<open>Decrypt\<close>
  return the empty string; the empty ciphertext piece is one such input.\<close>

theorem Decrypt_short_ciphertext:
  assumes "strings_Split c CHR ''-'' = [a, b, d]"
    and "hex_DecodeString a = Inr salt"
    and "hex_DecodeString b = Inr iv" and "length iv = 12"
    and "hex_DecodeString d = Inr data" and "length data < 16"
  shows "Decrypt p c = Done ''''"
  using Decrypt_parsed [OF assms(1-5), of p]
    gcm_Open_short [OF std_gcm_aes_gcm assms(4) assms(6)]
  by simp

theorem Decrypt_short_ciphertext_witness:
  "strings_Split ''-000102030405060708090a0b-'' CHR ''-'' = ['''', ''000102030405060708090a0b'', '''']
   \<and> hex_DecodeString '''' = Inr []
   \<and> hex_DecodeString ''000102030405060708090a0b'' = Inr [0, 1, 2, 3, 4, 5, 6, 7, 8, 9, 10, 11]
   \<and> Decrypt ''hunter2'' ''-000102030405060708090a0b-'' = Done ''''
   \<and> strings_Split ''ab-000102030405060708090a0b-00ff'' CHR ''-'' = [''ab'', ''000102030405060708090a0b'', ''00ff'']
   \<and> hex_DecodeString ''ab'' = Inr [0xab]
   \<and> hex_DecodeString ''00ff'' = Inr [0x00, 0xff]
   \<and> Decrypt ''hunter2'' ''ab-000102030405060708090a0b-00ff'' = Done ''''"
proof -
  have s1: "strings_Split ''-000102030405060708090a0b-'' CHR ''-'' = ['''', ''000102030405060708090a0b'', '''']"
    using strings_Split_three [of "CHR ''-''" "''''" "''000102030405060708090a0b''" "''''"] by simp
  have s2: "strings_Split ''ab-000102030405060708090a0b-00ff'' CHR ''-'' = [''ab'', ''000102030405060708090a0b'', ''00ff'']"
    using strings_Split_three [of "CHR ''-''" "''ab''" "''000102030405060708090a0b''" "''00ff''"] by simp
  have h0: "hex_DecodeString '''' = Inr []" by simp
  have h1: "hex_DecodeString ''000102030405060708090a0b'' = Inr [0, 1, 2, 3, 4, 5, 6, 7, 8, 9, 10, 11]"
    by (simp add: reverseHexTable_def)
  have h2: "hex_DecodeString ''ab'' = Inr [0xab]" by (simp add: reverseHexTable_def)
  have h3: "hex_DecodeString ''00ff'' = Inr [0x00, 0xff]" by (simp add: reverseHexTable_def)
  have d1: "Decrypt ''hunter2'' ''-000102030405060708090a0b-'' = Done ''''"
    by (rule Decrypt_short_ciphertext [OF s1 h0 h1 _ h0]) simp_all
  have d2: "Decrypt ''hunter2'' ''ab-000102030405060708090a0b-00ff'' = Done ''''"
    by (rule Decrypt_short_ciphertext [OF s2 h2 h1 _ h3]) simp_all
  from s1 s2 h0 h1 h2 h3 d1 d2 show ?thesis by blast
qed

end
